theory Spec2Isabelle
  imports Complex_Main "HOL-Library.Word"
begin

section \<open>JavaScript values\<close>

text \<open>
  The upload service of \<^verbatim>\<open>index.js\<close> handles parsed JSON: the request body, the bodies the
  bridge answers with, the values it throws and the bodies it sends back. They are
  modelled by one datatype of JavaScript values. A number is the real value of the
  double; an object is the list of its own properties.
\<close>

datatype jsval =
    JUndefined
  | JNull
  | JBool bool
  | JNum real
  | JStr string
  | JArr "jsval list"
  | JObj "(string \<times> jsval) list"

text \<open>JavaScript's \<^verbatim>\<open>ToBoolean\<close>: what \<^verbatim>\<open>!v\<close> and \<^verbatim>\<open>v || w\<close> test.\<close>

fun truthy :: "jsval \<Rightarrow> bool" where
  "truthy JUndefined = False"
| "truthy JNull = False"
| "truthy (JBool b) = b"
| "truthy (JNum x) = (x \<noteq> 0)"
| "truthy (JStr s) = (s \<noteq> [])"
| "truthy (JArr xs) = True"
| "truthy (JObj kvs) = True"

text \<open>\<^verbatim>\<open>a || b\<close>\<close>

definition js_or :: "jsval \<Rightarrow> jsval \<Rightarrow> jsval" where
  "js_or a b = (if truthy a then a else b)"

text \<open>
  \<^verbatim>\<open>v?.k\<close> for the property names the service reads (\<^verbatim>\<open>fileName\<close>, \<^verbatim>\<open>contentBase64\<close>,
  \<^verbatim>\<open>results\<close>, \<^verbatim>\<open>out\<close>, \<^verbatim>\<open>ok\<close>, \<^verbatim>\<open>url\<close>, \<^verbatim>\<open>headers\<close>, \<^verbatim>\<open>response\<close>, \<^verbatim>\<open>data\<close>, \<^verbatim>\<open>message\<close>): none of
  them is a built-in property of a string, an array, a number or a boolean, so only an
  object can have one. Every access of the service to a value that may be
  \<^verbatim>\<open>null\<close> or \<^verbatim>\<open>undefined\<close> is written with \<^verbatim>\<open>?.\<close> or follows \<^verbatim>\<open>|| {}\<close>.
\<close>

fun js_get :: "jsval \<Rightarrow> string \<Rightarrow> jsval" where
  "js_get (JObj kvs) k = (case map_of kvs k of None \<Rightarrow> JUndefined | Some v \<Rightarrow> v)"
| "js_get v k = JUndefined"

text \<open>\<^verbatim>\<open>v[i]\<close> on a value that is neither \<^verbatim>\<open>null\<close> nor \<^verbatim>\<open>undefined\<close>, for \<^verbatim>\<open>i = 0, 1, 2\<close>.\<close>

fun digit_key :: "nat \<Rightarrow> string" where
  "digit_key n = [char_of (48 + n)]"

fun js_idx :: "jsval \<Rightarrow> nat \<Rightarrow> jsval" where
  "js_idx (JArr xs) i = (if i < length xs then xs ! i else JUndefined)"
| "js_idx (JStr s) i = (if i < length s then JStr [s ! i] else JUndefined)"
| "js_idx (JObj kvs) i = js_get (JObj kvs) (digit_key i)"
| "js_idx v i = JUndefined"

text \<open>\<^verbatim>\<open>new Error(msg)\<close>, \<^verbatim>\<open>new TypeError(msg)\<close>: the handler reads only \<^verbatim>\<open>message\<close> and \<^verbatim>\<open>response\<close>.\<close>

definition Error :: "string \<Rightarrow> jsval" where
  "Error msg = JObj [(''message'', JStr msg)]"

section \<open>Bytes, identifiers, blocks\<close>

type_synonym byte = "8 word"

text \<open>A multihash digest and a \<^verbatim>\<open>CID\<close> of package \<^verbatim>\<open>multiformats\<close>, by their fields.\<close>

record multihash =
  hash_code :: nat
  digest :: "byte list"

record CID =
  version :: nat
  code :: nat
  multihash :: multihash

text \<open>\<^verbatim>\<open>CID.createV1(code, digest)\<close>\<close>

definition createV1 :: "nat \<Rightarrow> multihash \<Rightarrow> CID" where
  "createV1 c mh = \<lparr>version = 1, code = c, multihash = mh\<rparr>"

text \<open>A block as the file encoder stream emits it: \<^verbatim>\<open>{ cid, bytes }\<close>.\<close>

record block =
  cid :: CID
  bytes :: "byte list"

section \<open>The packages the service imports\<close>

text \<open>
  \<^verbatim>\<open>index.js\<close> calls into Node (\<^verbatim>\<open>Buffer.from\<close>), \<^verbatim>\<open>ipfs-car\<close> (\<^verbatim>\<open>createFileEncoderStream\<close>,
  \<^verbatim>\<open>CAREncoderStream\<close>) and \<^verbatim>\<open>multiformats\<close> (\<^verbatim>\<open>sha256.digest\<close>, \<^verbatim>\<open>CID.toString\<close>). Their code is
  not part of the repository, so the model takes them as parameters:
  \<^item> \<open>Buffer_from_base64 v\<close> is \<^verbatim>\<open>Buffer.from(v, 'base64')\<close>: the bytes, or the value thrown;
  \<^item> \<open>createFileEncoderStream p\<close> is the sequence of blocks the stream for payload \<open>p\<close>
    delivers, in order;
  \<^item> \<open>encodeHeader roots\<close> is the chunk \<^verbatim>\<open>new CAREncoderStream(roots)\<close> emits first and
    \<open>encodeBlock b\<close> the chunk it emits for the block \<open>b\<close> it is fed (the spec has the
    encoder produce "a header (declaring the root identifier(s)) followed by each block",
    "in the order received");
  \<^item> \<open>sha256 bs\<close> is the digest of \<^verbatim>\<open>sha256.digest(bs)\<close>;
  \<^item> \<open>CID_toString c\<close> is \<^verbatim>\<open>c.toString()\<close>.
\<close>

record packages =
  Buffer_from_base64 :: "jsval \<Rightarrow> jsval + byte list"
  createFileEncoderStream :: "byte list \<Rightarrow> block list"
  encodeHeader :: "CID list \<Rightarrow> byte list"
  encodeBlock :: "block \<Rightarrow> byte list"
  sha256 :: "byte list \<Rightarrow> byte list"
  CID_toString :: "CID \<Rightarrow> string"

text \<open>\<^verbatim>\<open>sha256.digest(bs)\<close>: a multihash with the code of sha2-256.\<close>

definition sha256_digest :: "packages \<Rightarrow> byte list \<Rightarrow> multihash" where
  "sha256_digest L bs = \<lparr>hash_code = 0x12, digest = sha256 L bs\<rparr>"

section \<open>\<^verbatim>\<open>bytesToCar\<close> and \<^verbatim>\<open>carCid\<close>\<close>

text \<open>
  \<^verbatim>\<open>stream.pipeTo(new WritableStream({ write: (b) => arr.push(b) }))\<close>: every item of the
  stream is pushed on the array, in the order delivered.
\<close>

fun pipeTo_push :: "'a list \<Rightarrow> 'a list \<Rightarrow> 'a list" where
  "pipeTo_push [] arr = arr"
| "pipeTo_push (b # stream) arr = pipeTo_push stream (arr @ [b])"

text \<open>\<^verbatim>\<open>arr.at(-1)\<close>: the last element, \<^verbatim>\<open>undefined\<close> (\<open>None\<close>) on the empty array.\<close>

fun at_last :: "'a list \<Rightarrow> 'a option" where
  "at_last [] = None"
| "at_last [x] = Some x"
| "at_last (x # y # xs) = at_last (y # xs)"

text \<open>
  Step 3 of \<^verbatim>\<open>bytesToCar\<close>. The state is the pair of the arrays \<^verbatim>\<open>blocks\<close> and
  \<^verbatim>\<open>carChunks\<close>. Each \<^verbatim>\<open>pull\<close> takes the first block off \<^verbatim>\<open>blocks\<close> (\<^verbatim>\<open>blocks.shift()\<close>) and
  enqueues it; the encoder turns it into one chunk, which the sink pushes on
  \<^verbatim>\<open>carChunks\<close>. When \<^verbatim>\<open>blocks\<close> is empty the stream is closed.
\<close>

fun pull_all :: "packages \<Rightarrow> block list \<Rightarrow> byte list list \<Rightarrow> block list \<times> byte list list" where
  "pull_all L [] carChunks = ([], carChunks)"
| "pull_all L (b # blocks) carChunks = pull_all L blocks (carChunks @ [encodeBlock L b])"

text \<open>
  \<^verbatim>\<open>blockStream.pipeThrough(new CAREncoderStream([rootCID])).pipeTo(...)\<close> from
  \<^verbatim>\<open>carChunks = []\<close>: the encoder emits the header chunk when it starts, then the
  chunks of the blocks pulled. The result is the final \<^verbatim>\<open>blocks\<close> and \<^verbatim>\<open>carChunks\<close>.
\<close>

definition encode_car :: "packages \<Rightarrow> CID list \<Rightarrow> block list \<Rightarrow> block list \<times> byte list list" where
  "encode_car L roots blocks = pull_all L blocks ([] @ [encodeHeader L roots])"

record car =
  rootCid :: string
  carBytes :: "byte list"

definition bytesToCar :: "packages \<Rightarrow> byte list \<Rightarrow> jsval + car" where
  "bytesToCar L bs =
     (let blocks = pipeTo_push (createFileEncoderStream L bs) [] in
      case at_last blocks of
        None \<Rightarrow> Inl (Error ''Cannot read properties of undefined (reading 'cid')'')
      | Some b \<Rightarrow>
          (let rootCID = cid b;
               carChunks = snd (encode_car L [rootCID] blocks)
           in Inr \<lparr>rootCid = CID_toString L rootCID, carBytes = concat carChunks\<rparr>))"

definition CAR_CODE :: nat where
  "CAR_CODE = 0x0202"

definition carCid :: "packages \<Rightarrow> byte list \<Rightarrow> string" where
  "carCid L bs = CID_toString L (createV1 CAR_CODE (sha256_digest L bs))"

section \<open>The environment and the bridge headers\<close>

text \<open>
  The variables the service destructures from \<^verbatim>\<open>process.env\<close>: each is a string or absent.
  A default of the destructuring applies to an absent variable only.
\<close>

record env =
  STORACHA_BRIDGE_URL :: "string option"
  STORACHA_X_AUTH_SECRET :: "string option"
  STORACHA_AUTH :: "string option"
  SPACE_DID :: "string option"
  GATEWAY_BASE :: "string option"

definition env_val :: "string option \<Rightarrow> jsval" where
  "env_val v = (case v of None \<Rightarrow> JUndefined | Some s \<Rightarrow> JStr s)"

definition bridge_url :: "env \<Rightarrow> string" where
  "bridge_url E =
     (case STORACHA_BRIDGE_URL E of None \<Rightarrow> ''https://up.storacha.network/bridge'' | Some u \<Rightarrow> u)"

definition gateway_base :: "env \<Rightarrow> string" where
  "gateway_base E = (case GATEWAY_BASE E of None \<Rightarrow> ''https://w3s.link/ipfs/'' | Some u \<Rightarrow> u)"

definition bridgeHeaders :: "env \<Rightarrow> jsval + jsval" where
  "bridgeHeaders E =
     (if \<not> truthy (env_val (STORACHA_X_AUTH_SECRET E)) \<or> \<not> truthy (env_val (STORACHA_AUTH E))
         \<or> \<not> truthy (env_val (SPACE_DID E))
      then Inl (Error ''Missing STORACHA_X_AUTH_SECRET, STORACHA_AUTH, or SPACE_DID in .env'')
      else Inr (JObj [(''Content-Type'', JStr ''application/json''),
                      (''X-Auth-Secret'', env_val (STORACHA_X_AUTH_SECRET E)),
                      (''Authorization'', env_val (STORACHA_AUTH E))]))"

section \<open>The network\<close>

text \<open>
  The service reaches the network through \<^verbatim>\<open>axios.post(url, data, { headers })\<close> and
  \<^verbatim>\<open>axios.put(url, carBytes, { headers, maxBodyLength: Infinity })\<close> only. A call either
  resolves, with a response of which the service reads \<^verbatim>\<open>data\<close>, or rejects with a value
  that is thrown. What the network answers is a parameter: a function of the state
  \<open>'w\<close> of the world outside and of the call, which also gives the world after it.
\<close>

datatype call =
    Post string jsval jsval
  | Put jsval "byte list" jsval

datatype reply =
    Resolved jsval
  | Rejected jsval

type_synonym 'w axios = "'w \<Rightarrow> call \<Rightarrow> reply \<times> 'w"

text \<open>The calls issued so far, oldest first, each with its outcome.\<close>

type_synonym trace = "(call \<times> reply) list"

section \<open>\<^verbatim>\<open>POST /storacha/upload\<close>\<close>

text \<open>
  A run of the handler takes the parsed body of the request and gives the response sent
  (\<^verbatim>\<open>res.status(n).json(body)\<close>, with status 200 for a plain \<^verbatim>\<open>res.json\<close>), the calls issued and
  the world they leave. The lines written with \<^verbatim>\<open>console.log\<close> and \<^verbatim>\<open>console.error\<close> (the
  identifiers, the size, the bodies of the bridge) are not part of the model.
\<close>

record response =
  status :: nat
  body :: jsval

definition tasksStore :: "env \<Rightarrow> string \<Rightarrow> nat \<Rightarrow> jsval" where
  "tasksStore E shardCid sz =
     JObj [(''tasks'', JArr [JArr [JStr ''store/add'', env_val (SPACE_DID E),
        JObj [(''link'', JObj [(''/'', JStr shardCid)]), (''size'', JNum (real sz))]]])]"

definition tasksUpload :: "env \<Rightarrow> string \<Rightarrow> string \<Rightarrow> jsval" where
  "tasksUpload E rootId shardCid =
     JObj [(''tasks'', JArr [JArr [JStr ''upload/add'', env_val (SPACE_DID E),
        JObj [(''root'', JObj [(''/'', JStr rootId)]),
              (''shards'', JArr [JObj [(''/'', JStr shardCid)]])]]])]"

text \<open>Phase 3, after the PUT has resolved: \<^verbatim>\<open>upload/add\<close> and the success response.\<close>

definition upload_add ::
  "'w axios \<Rightarrow> env \<Rightarrow> 'w \<Rightarrow> trace \<Rightarrow> car \<Rightarrow> string \<Rightarrow> (jsval + response) \<times> trace \<times> 'w" where
  "upload_add axios E w tr c shardCid =
     (let tasks = tasksUpload E (rootCid c) shardCid in
      case bridgeHeaders E of
        Inl e \<Rightarrow> (Inl e, tr, w)
      | Inr headers \<Rightarrow>
          (let call3 = Post (bridge_url E) tasks headers in
           case axios w call3 of
             (Rejected e, w') \<Rightarrow> (Inl e, tr @ [(call3, Rejected e)], w')
           | (Resolved upResp, w') \<Rightarrow>
               (Inr \<lparr>status = 200,
                     body = JObj [(''ok'', JBool True), (''rootCid'', JStr (rootCid c)),
                                  (''gatewayUrl'', JStr (gateway_base E @ rootCid c))]\<rparr>,
                tr @ [(call3, Resolved upResp)], w')))"

text \<open>
  After \<^verbatim>\<open>store/add\<close> has resolved with the body \<open>storeResp\<close>: the signed URL is read, and
  without one the bridge's body is sent back; with one the archive is PUT.
\<close>

definition putUrl_of :: "jsval \<Rightarrow> jsval" where
  "putUrl_of storeResp =
     (let storeTask = js_idx (js_or (js_get storeResp ''results'') (JArr [])) 0
      in js_get (js_get (js_get storeTask ''out'') ''ok'') ''url'')"

definition putHeaders_of :: "jsval \<Rightarrow> jsval" where
  "putHeaders_of storeResp =
     (let storeTask = js_idx (js_or (js_get storeResp ''results'') (JArr [])) 0
      in js_or (js_get (js_get (js_get storeTask ''out'') ''ok'') ''headers'') (JObj []))"

definition put_car ::
  "'w axios \<Rightarrow> env \<Rightarrow> 'w \<Rightarrow> trace \<Rightarrow> car \<Rightarrow> string \<Rightarrow> jsval \<Rightarrow> (jsval + response) \<times> trace \<times> 'w" where
  "put_car axios E w tr c shardCid storeResp =
     (let putUrl = putUrl_of storeResp; putHeaders = putHeaders_of storeResp in
      if \<not> truthy putUrl then
        (Inr \<lparr>status = 502,
              body = JObj [(''ok'', JBool False), (''error'', JStr ''Bridge did not return a PUT URL''),
                           (''bridge'', storeResp)]\<rparr>, tr, w)
      else if \<not> truthy putUrl then
        (Inr \<lparr>status = 502,
              body = JObj [(''ok'', JBool False),
                 (''error'', JStr ''Bridge did not return a PUT URL (check link/size/caps/tokens)'')]\<rparr>,
         tr, w)
      else
        (let call2 = Put putUrl (carBytes c) putHeaders in
         case axios w call2 of
           (Rejected e, w') \<Rightarrow> (Inl e, tr @ [(call2, Rejected e)], w')
         | (Resolved r, w') \<Rightarrow> upload_add axios E w' (tr @ [(call2, Resolved r)]) c shardCid))"

text \<open>
  The body of the \<^verbatim>\<open>try\<close>: \<open>Inl e\<close> when \<open>e\<close> is thrown, \<open>Inr r\<close> when the response \<open>r\<close> is
  sent, with the calls issued and the world they leave. In
  \<^verbatim>\<open>axios.post(URL, tasksStore, { headers: bridgeHeaders() })\<close> the arguments are evaluated
  before the call, so when \<^verbatim>\<open>bridgeHeaders\<close> throws there is no call.
\<close>

definition upload_try ::
  "packages \<Rightarrow> 'w axios \<Rightarrow> env \<Rightarrow> 'w \<Rightarrow> jsval \<Rightarrow> (jsval + response) \<times> trace \<times> 'w" where
  "upload_try L axios E w req_body =
     (let fileName = js_get (js_or req_body (JObj [])) ''fileName'';
          contentBase64 = js_get (js_or req_body (JObj [])) ''contentBase64''
      in
      if \<not> truthy fileName \<or> \<not> truthy contentBase64 then
        (Inr \<lparr>status = 400,
              body = JObj [(''ok'', JBool False),
                           (''error'', JStr ''fileName and contentBase64 are required'')]\<rparr>, [], w)
      else
        case Buffer_from_base64 L contentBase64 of
          Inl e \<Rightarrow> (Inl e, [], w)
        | Inr bs \<Rightarrow>
           (case bytesToCar L bs of
              Inl e \<Rightarrow> (Inl e, [], w)
            | Inr c \<Rightarrow>
               (let sz = length (carBytes c);
                    shardCid = carCid L (carBytes c);
                    tasks = tasksStore E shardCid sz
                in
                case bridgeHeaders E of
                  Inl e \<Rightarrow> (Inl e, [], w)
                | Inr headers \<Rightarrow>
                    (let call1 = Post (bridge_url E) tasks headers in
                     case axios w call1 of
                       (Rejected e, w') \<Rightarrow> (Inl e, [(call1, Rejected e)], w')
                     | (Resolved storeResp, w') \<Rightarrow>
                         put_car axios E w' [(call1, Resolved storeResp)] c shardCid storeResp))))"

text \<open>The \<^verbatim>\<open>catch\<close>: \<^verbatim>\<open>e?.response?.data || e?.message || e\<close>, sent with status 500.\<close>

definition catch_error :: "jsval \<Rightarrow> jsval" where
  "catch_error e = js_or (js_or (js_get (js_get e ''response'') ''data'') (js_get e ''message'')) e"

definition upload :: "packages \<Rightarrow> 'w axios \<Rightarrow> env \<Rightarrow> 'w \<Rightarrow> jsval \<Rightarrow> response \<times> trace \<times> 'w" where
  "upload L axios E w req_body =
     (case upload_try L axios E w req_body of
        (Inl e, tr, w') \<Rightarrow>
          (\<lparr>status = 500, body = JObj [(''ok'', JBool False), (''error'', catch_error e)]\<rparr>, tr, w')
      | (Inr r, tr, w') \<Rightarrow> (r, tr, w'))"

section \<open>Contracts of the packages\<close>

text \<open>
  Modelled from the spec: the Chunker/DAG-Builder (\<^verbatim>\<open>createFileEncoderStream\<close> of package
  \<^verbatim>\<open>ipfs-car\<close>, whose code is not in the repository) "splits a byte payload into one or more
  content blocks": for the payload \<open>p\<close> it delivers at least one block.
\<close>

definition chunker_emits :: "packages \<Rightarrow> byte list \<Rightarrow> bool" where
  "chunker_emits L p \<longleftrightarrow> createFileEncoderStream L p \<noteq> []"

text \<open>
  Modelled from the spec: the identifiers of the blocks (made by package \<^verbatim>\<open>ipfs-car\<close>, whose
  code is not in the repository) carry a content-type code "for DAG-file content", which is
  not the code "for archive-container content": no block delivered for the payload \<open>p\<close> is
  labelled with the CAR code.
\<close>

definition chunker_file_codes :: "packages \<Rightarrow> byte list \<Rightarrow> bool" where
  "chunker_file_codes L p \<longleftrightarrow> list_all (\<lambda>b. code (cid b) \<noteq> CAR_CODE) (createFileEncoderStream L p)"

text \<open>
  Modelled from the spec: an identifier is "rendered as a self-describing text token",
  the tokens being "distinguishable by their contentTypeCode" (\<^verbatim>\<open>CID.toString\<close> of package
  \<^verbatim>\<open>multiformats\<close>, whose code is not in the repository): a token determines the code of
  the identifier it renders.
\<close>

definition tokens_show_code :: "packages \<Rightarrow> bool" where
  "tokens_show_code L \<longleftrightarrow> (\<forall>c c'. CID_toString L c = CID_toString L c' \<longrightarrow> code c = code c')"

section \<open>Sample packages, environment and bridges\<close>

text \<open>
  Node's \<^verbatim>\<open>Buffer.from(s, 'base64')\<close> on a string, after Node's documentation: the standard and
  the URL-safe alphabet are both accepted, a character outside them (whitespace, for one)
  is ignored, and decoding ends at the first \<^verbatim>\<open>=\<close>. Each character carries six bits; every
  eight bits received make a byte and left-over bits are dropped.
\<close>

definition unbase64 :: "char \<Rightarrow> nat option" where
  "unbase64 c =
     (let n = (of_char c :: nat) in
      if 65 \<le> n \<and> n \<le> 90 then Some (n - 65)
      else if 97 \<le> n \<and> n \<le> 122 then Some (n - 71)
      else if 48 \<le> n \<and> n \<le> 57 then Some (n + 4)
      else if c = CHR ''+'' \<or> c = CHR ''-'' then Some 62
      else if c = CHR ''/'' \<or> c = CHR ''_'' then Some 63
      else None)"

fun sextets :: "string \<Rightarrow> nat list" where
  "sextets [] = []"
| "sextets (c # cs) =
     (if c = CHR ''='' then []
      else case unbase64 c of None \<Rightarrow> sextets cs | Some v \<Rightarrow> v # sextets cs)"

fun sextets_bytes :: "nat list \<Rightarrow> byte list" where
  "sextets_bytes (a # b # c # d # rest) =
     of_nat (a * 4 + b div 16) # of_nat ((b mod 16) * 16 + c div 4) # of_nat ((c mod 4) * 64 + d)
       # sextets_bytes rest"
| "sextets_bytes [a, b, c] = [of_nat (a * 4 + b div 16), of_nat ((b mod 16) * 16 + c div 4)]"
| "sextets_bytes [a, b] = [of_nat (a * 4 + b div 16)]"
| "sextets_bytes [a] = []"
| "sextets_bytes [] = []"

definition base64_decode :: "string \<Rightarrow> byte list" where
  "base64_decode s = sextets_bytes (sextets s)"

text \<open>
  \<^verbatim>\<open>Buffer.from(v, 'base64')\<close> for the sample packages: a string is decoded; a number or a
  boolean makes Node throw a \<^verbatim>\<open>TypeError\<close>. Arrays and objects, which Node converts in ways
  of its own, are treated as thrown here; no statement below feeds one to this sample.
\<close>

definition sample_Buffer_from :: "jsval \<Rightarrow> jsval + byte list" where
  "sample_Buffer_from v =
     (case v of
        JStr s \<Rightarrow> Inr (base64_decode s)
      | _ \<Rightarrow> Inl (Error ''The first argument must be of type string or an instance of Buffer''))"

text \<open>
  Stand-ins for the other packages, small enough to evaluate: a checksum in place of
  SHA-256, a chunker that wraps the payload in one block labelled with the raw code
  \<open>0x55\<close>, length-prefixed chunks, and a token that spells the code in unary.
\<close>

definition sample_sha256 :: "byte list \<Rightarrow> byte list" where
  "sample_sha256 bs = [of_nat (length bs), sum_list bs]"

definition sample_chunker :: "byte list \<Rightarrow> block list" where
  "sample_chunker p =
     [\<lparr>cid = createV1 0x55 \<lparr>hash_code = 0x12, digest = sample_sha256 p\<rparr>, bytes = p\<rparr>]"

definition sample_cid_bytes :: "CID \<Rightarrow> byte list" where
  "sample_cid_bytes c =
     of_nat (version c) # of_nat (code c) # of_nat (hash_code (multihash c)) # digest (multihash c)"

definition sample_packages :: packages where
  "sample_packages =
     \<lparr>Buffer_from_base64 = sample_Buffer_from,
      createFileEncoderStream = sample_chunker,
      encodeHeader = (\<lambda>roots. of_nat (length roots) # concat (map sample_cid_bytes roots)),
      encodeBlock = (\<lambda>b. of_nat (length (bytes b)) # sample_cid_bytes (cid b) @ bytes b),
      sha256 = sample_sha256,
      CID_toString = (\<lambda>c. replicate (code c) CHR ''b'')\<rparr>"

definition sample_env :: env where
  "sample_env =
     \<lparr>STORACHA_BRIDGE_URL = None, STORACHA_X_AUTH_SECRET = Some ''secret'',
      STORACHA_AUTH = Some ''token'', SPACE_DID = Some ''did:key:space'', GATEWAY_BASE = None\<rparr>"

text \<open>
  Two bridges, with the number of calls received as the state of the world. The first
  grants every \<^verbatim>\<open>store/add\<close> a signed URL and accepts every PUT; the second answers
  \<^verbatim>\<open>store/add\<close> with an error receipt, without a URL.
\<close>

definition granting_bridge :: "nat axios" where
  "granting_bridge n c =
     (case c of
        Post u d h \<Rightarrow>
          (Resolved (JObj [(''results'', JArr [JObj [(''out'', JObj [(''ok'',
             JObj [(''url'', JStr ''https://signed.example/car''), (''headers'', JObj [])])])]])]),
           Suc n)
      | Put u b h \<Rightarrow> (Resolved (JStr []), Suc n))"

definition refusal :: jsval where
  "refusal = JObj [(''results'', JArr [JObj [(''out'', JObj [(''error'',
     JObj [(''name'', JStr ''Unauthorized'')])])]])]"

definition refusing_bridge :: "nat axios" where
  "refusing_bridge n c = (Resolved refusal, Suc n)"

definition request :: "string \<Rightarrow> string \<Rightarrow> jsval" where
  "request name content = JObj [(''fileName'', JStr name), (''contentBase64'', JStr content)]"

section \<open>Reading a trace\<close>

text \<open>
  What a call asks of the bridge: the name and the arguments of the first task of a
  POST, \<^verbatim>\<open>data.tasks[0][0]\<close> and \<^verbatim>\<open>data.tasks[0][2]\<close>.
\<close>

definition task_name :: "call \<Rightarrow> jsval" where
  "task_name c =
     (case c of Post u d h \<Rightarrow> js_idx (js_idx (js_get d ''tasks'') 0) 0 | Put u b h \<Rightarrow> JUndefined)"

definition task_args :: "call \<Rightarrow> jsval" where
  "task_args c =
     (case c of Post u d h \<Rightarrow> js_idx (js_idx (js_get d ''tasks'') 0) 2 | Put u b h \<Rightarrow> JUndefined)"


text \<open>A reply that authorizes the transfer: resolved, with a signed URL in the body.\<close>

fun granted :: "reply \<Rightarrow> bool" where
  "granted (Resolved d) = truthy (putUrl_of d)"
| "granted (Rejected e) = False"



text \<open>The parts of a run of the handler: the response sent, the calls issued, the world left.\<close>

definition response_of :: "response \<times> trace \<times> 'w \<Rightarrow> response" where
  "response_of run = fst run"

definition trace_of :: "response \<times> trace \<times> 'w \<Rightarrow> trace" where
  "trace_of run = fst (snd run)"

definition world_of :: "response \<times> trace \<times> 'w \<Rightarrow> 'w" where
  "world_of run = snd (snd run)"

section \<open>Runs of the archive construction\<close>

text \<open>
  To speak of two runs of \<^verbatim>\<open>bytesToCar\<close> and \<^verbatim>\<open>carCid\<close>, a run is described without supposing
  that a call of a package returns the same value every time, or that the stream runtime
  schedules the pipeline of step 3 the same way every time. A call of a package is a
  relation between its argument and a value it may return:
  \<open>delivers p stream\<close> for the blocks the stream of \<^verbatim>\<open>createFileEncoderStream\<close> may deliver for
  the payload \<open>p\<close>, \<open>header_chunk\<close> and \<open>block_chunk\<close> for the chunks of \<^verbatim>\<open>CAREncoderStream\<close>,
  \<open>digests\<close> for \<^verbatim>\<open>sha256.digest\<close> and \<open>renders\<close> for \<^verbatim>\<open>CID.toString\<close>.
\<close>

record calls =
  delivers :: "byte list \<Rightarrow> block list \<Rightarrow> bool"
  header_chunk :: "CID list \<Rightarrow> byte list \<Rightarrow> bool"
  block_chunk :: "block \<Rightarrow> byte list \<Rightarrow> bool"
  digests :: "byte list \<Rightarrow> byte list \<Rightarrow> bool"
  renders :: "CID \<Rightarrow> string \<Rightarrow> bool"

text \<open>Packages given as functions, seen as calls: each call has the one value of the function.\<close>

definition calls_of :: "packages \<Rightarrow> calls" where
  "calls_of L =
     \<lparr>delivers = (\<lambda>p bs. bs = createFileEncoderStream L p),
      header_chunk = (\<lambda>roots h. h = encodeHeader L roots),
      block_chunk = (\<lambda>b c. c = encodeBlock L b),
      digests = (\<lambda>bs d. d = sha256 L bs),
      renders = (\<lambda>c tok. tok = CID_toString L c)\<rparr>"

text \<open>
  Modelled from the spec: the packages \<^verbatim>\<open>ipfs-car\<close> and \<^verbatim>\<open>multiformats\<close>, whose code is not in
  the repository, are deterministic. Of the chunker the spec says "re-running it on
  bit-identical input must yield a bit-identical block sequence and root identifier", of
  the encoder that "byte-for-byte fidelity is required", of an identifier that it "is a pure
  function of \<^verbatim>\<open>bytes\<close>" and that determinism "follow[s] directly from the hash function":
  a call returns one value for one argument.
\<close>

definition deterministic :: "calls \<Rightarrow> bool" where
  "deterministic R \<longleftrightarrow>
     (\<forall>p x y. delivers R p x \<longrightarrow> delivers R p y \<longrightarrow> x = y) \<and>
     (\<forall>roots x y. header_chunk R roots x \<longrightarrow> header_chunk R roots y \<longrightarrow> x = y) \<and>
     (\<forall>b x y. block_chunk R b x \<longrightarrow> block_chunk R b y \<longrightarrow> x = y) \<and>
     (\<forall>bs x y. digests R bs x \<longrightarrow> digests R bs y \<longrightarrow> x = y) \<and>
     (\<forall>c x y. renders R c x \<longrightarrow> renders R c y \<longrightarrow> x = y)"

text \<open>
  The pipeline of step 3,
  \<^verbatim>\<open>blockStream.pipeThrough(new CAREncoderStream([rootCID])).pipeTo(new WritableStream(...))\<close>,
  as the stream runtime runs it. Its state is the array \<^verbatim>\<open>blocks\<close>, the queue of
  \<^verbatim>\<open>blockStream\<close> (blocks enqueued by \<^verbatim>\<open>pull\<close> and not yet transformed), the queue of the
  encoder's readable side (chunks emitted and not yet written) and the array \<^verbatim>\<open>carChunks\<close>.
  The queues are first-in first-out. The runtime decides when it calls \<^verbatim>\<open>pull\<close>, the
  encoder's \<^verbatim>\<open>transform\<close> and the sink's \<^verbatim>\<open>write\<close>; a step is any one of them:
  \<^item> \<^verbatim>\<open>pull\<close> with \<^verbatim>\<open>blocks.length\<close> not zero: \<^verbatim>\<open>controller.enqueue(blocks.shift())\<close>;
  \<^item> \<^verbatim>\<open>transform\<close>: the encoder takes the first queued block and emits a chunk for it;
  \<^item> \<^verbatim>\<open>write\<close>: the sink takes the first chunk emitted and runs \<^verbatim>\<open>carChunks.push(c)\<close>.
  A \<^verbatim>\<open>pull\<close> with \<^verbatim>\<open>blocks\<close> empty closes the stream, and the promise of \<^verbatim>\<open>pipeTo\<close> resolves
  once the queues have run empty as well: the pipeline has finished.
\<close>

record pipe =
  arr_blocks :: "block list"
  q_blocks :: "block list"
  q_chunks :: "byte list list"
  arr_carChunks :: "byte list list"

inductive pipe_step :: "calls \<Rightarrow> pipe \<Rightarrow> pipe \<Rightarrow> bool" for R :: calls where
  step_pull: "arr_blocks s = b # bs \<Longrightarrow>
     pipe_step R s (s\<lparr>arr_blocks := bs, q_blocks := q_blocks s @ [b]\<rparr>)"
| step_transform: "q_blocks s = b # bs \<Longrightarrow> block_chunk R b c \<Longrightarrow>
     pipe_step R s (s\<lparr>q_blocks := bs, q_chunks := q_chunks s @ [c]\<rparr>)"
| step_write: "q_chunks s = c # cs \<Longrightarrow>
     pipe_step R s (s\<lparr>q_chunks := cs, arr_carChunks := arr_carChunks s @ [c]\<rparr>)"

definition finished :: "pipe \<Rightarrow> bool" where
  "finished s \<longleftrightarrow> arr_blocks s = [] \<and> q_blocks s = [] \<and> q_chunks s = []"

text \<open>
  A run of \<^verbatim>\<open>bytesToCar\<close> on the bytes \<open>bs\<close> and what it returns or throws. The stream of step
  2 delivers some blocks, which are pushed on \<^verbatim>\<open>blocks\<close>; without a last block the run throws;
  otherwise the encoder starts by emitting a header for the one root, the pipeline runs,
  in any schedule, from \<^verbatim>\<open>carChunks = []\<close> until it has finished, and the run returns the
  token of the root and the chunks joined.
\<close>

inductive bytesToCar_run :: "calls \<Rightarrow> byte list \<Rightarrow> jsval + car \<Rightarrow> bool" for R :: calls where
  no_block: "delivers R bs stream \<Longrightarrow> at_last (pipeTo_push stream []) = None \<Longrightarrow>
     bytesToCar_run R bs (Inl (Error ''Cannot read properties of undefined (reading 'cid')''))"
| packed: "delivers R bs stream \<Longrightarrow> at_last (pipeTo_push stream []) = Some b \<Longrightarrow>
     header_chunk R [cid b] h \<Longrightarrow>
     rtranclp (pipe_step R)
       \<lparr>arr_blocks = pipeTo_push stream [], q_blocks = [], q_chunks = [h], arr_carChunks = []\<rparr> t \<Longrightarrow>
     finished t \<Longrightarrow> renders R (cid b) token \<Longrightarrow>
     bytesToCar_run R bs (Inr \<lparr>rootCid = token, carBytes = concat (arr_carChunks t)\<rparr>)"

text \<open>A run of \<^verbatim>\<open>carCid\<close>: the bytes are digested and the CAR identifier of the digest is rendered.\<close>

inductive carCid_run :: "calls \<Rightarrow> byte list \<Rightarrow> string \<Rightarrow> bool" for R :: calls where
  "digests R bs d \<Longrightarrow> renders R (createV1 CAR_CODE \<lparr>hash_code = 0x12, digest = d\<rparr>) token \<Longrightarrow>
   carCid_run R bs token"

text \<open>
  Lines 92 to 94 of the handler, run on a payload: the value \<^verbatim>\<open>bytesToCar\<close> throws, or the
  root token with the archive token \<^verbatim>\<open>carCid\<close> derives from the archive bytes of that run.
\<close>

inductive identifiers_run :: "calls \<Rightarrow> byte list \<Rightarrow> jsval + string \<times> string \<Rightarrow> bool"
  for R :: calls where
  thrown: "bytesToCar_run R bs (Inl e) \<Longrightarrow> identifiers_run R bs (Inl e)"
| derived: "bytesToCar_run R bs (Inr c) \<Longrightarrow> carCid_run R (carBytes c) shardCid \<Longrightarrow>
     identifiers_run R bs (Inr (rootCid c, shardCid))"

text \<open>
  What a state of the pipeline can still make of \<^verbatim>\<open>carChunks\<close>: the chunks written, the chunks
  emitted, and chunks for the blocks queued and for the blocks left in the array.
\<close>

definition outcome :: "calls \<Rightarrow> pipe \<Rightarrow> byte list list \<Rightarrow> bool" where
  "outcome R s out \<longleftrightarrow>
     (\<exists>cs1 cs2. list_all2 (block_chunk R) (q_blocks s) cs1 \<and> list_all2 (block_chunk R) (arr_blocks s) cs2
        \<and> out = arr_carChunks s @ q_chunks s @ cs1 @ cs2)"

text \<open>
  Calls that break the contract, to compare: the encoder of the sample packages, except
  that it may also emit an empty chunk for a block.
\<close>

definition unstable_calls :: calls where
  "unstable_calls =
     (calls_of sample_packages)\<lparr>block_chunk := (\<lambda>b c. c = encodeBlock sample_packages b \<or> c = [])\<rparr>"

text \<open>
  A third bridge: it answers every call with status 401 and the body \<open>refusal\<close>, so the call
  of \<^verbatim>\<open>axios\<close> rejects with an error that carries the response.
\<close>

definition rejection :: jsval where
  "rejection =
     JObj [(''message'', JStr ''Request failed with status code 401''),
           (''response'', JObj [(''status'', JNum 401), (''data'', refusal)])]"

definition rejecting_bridge :: "nat axios" where
  "rejecting_bridge n c = (Rejected rejection, Suc n)"

section \<open>Facts about the archive construction\<close>

lemma pipeTo_push_append: "pipeTo_push stream arr = arr @ stream"
  by (induction stream arbitrary: arr) simp_all

lemma at_last_None: "at_last xs = None \<longleftrightarrow> xs = []"
  by (induction xs rule: at_last.induct) simp_all

lemma at_last_Some: "xs \<noteq> [] \<Longrightarrow> at_last xs = Some (last xs)"
  by (induction xs rule: at_last.induct) simp_all

lemma pull_all_eq: "pull_all L blocks carChunks = ([], carChunks @ map (encodeBlock L) blocks)"
  by (induction blocks arbitrary: carChunks) simp_all

lemma encode_car_eq:
  "encode_car L roots blocks = ([], encodeHeader L roots # map (encodeBlock L) blocks)"
  by (simp add: encode_car_def pull_all_eq)

lemma bytesToCar_empty_stream:
  "createFileEncoderStream L bs = [] \<Longrightarrow>
   bytesToCar L bs = Inl (Error ''Cannot read properties of undefined (reading 'cid')'')"
  by (simp add: bytesToCar_def)

lemma bytesToCar_eq:
  "createFileEncoderStream L bs \<noteq> [] \<Longrightarrow>
   bytesToCar L bs =
     Inr \<lparr>rootCid = CID_toString L (cid (last (createFileEncoderStream L bs))),
          carBytes = encodeHeader L [cid (last (createFileEncoderStream L bs))]
                     @ concat (map (encodeBlock L) (createFileEncoderStream L bs))\<rparr>"
  by (simp add: bytesToCar_def pipeTo_push_append at_last_Some encode_car_eq Let_def)

section \<open>Facts about the handler\<close>

lemma task_name_store [simp]: "task_name (Post u (tasksStore E s n) h) = JStr ''store/add''"
  by (simp add: task_name_def tasksStore_def)

lemma task_name_upload [simp]: "task_name (Post u (tasksUpload E r s) h) = JStr ''upload/add''"
  by (simp add: task_name_def tasksUpload_def)

lemma task_args_store_size [simp]:
  "js_get (task_args (Post u (tasksStore E s n) h)) ''size'' = JNum (real n)"
  by (simp add: task_args_def tasksStore_def)



lemma upload_add_cases [consumes 2, case_names add_rejected finalized]:
  assumes run: "upload_add axios E w tr c s = (res, tr', w')"
    and hdrs: "bridgeHeaders E = Inr h"
  obtains e where
      "tr' = tr @ [(Post (bridge_url E) (tasksUpload E (rootCid c) s) h, Rejected e)]"
      "res = Inl e"
  | u where
      "tr' = tr @ [(Post (bridge_url E) (tasksUpload E (rootCid c) s) h, Resolved u)]"
      "res = Inr \<lparr>status = 200,
                     body = JObj [(''ok'', JBool True), (''rootCid'', JStr (rootCid c)),
                                  (''gatewayUrl'', JStr (gateway_base E @ rootCid c))]\<rparr>"
proof -
  obtain r w1 where ax: "axios w (Post (bridge_url E) (tasksUpload E (rootCid c) s) h) = (r, w1)"
    by (cases "axios w (Post (bridge_url E) (tasksUpload E (rootCid c) s) h)")
  show thesis
  proof (cases r)
    case (Resolved u)
    with run hdrs ax have
      "tr' = tr @ [(Post (bridge_url E) (tasksUpload E (rootCid c) s) h, Resolved u)]"
      "res = Inr \<lparr>status = 200,
                     body = JObj [(''ok'', JBool True), (''rootCid'', JStr (rootCid c)),
                                  (''gatewayUrl'', JStr (gateway_base E @ rootCid c))]\<rparr>"
      by (auto simp: upload_add_def)
    then show thesis by (rule that(2))
  next
    case (Rejected e)
    with run hdrs ax have
      "tr' = tr @ [(Post (bridge_url E) (tasksUpload E (rootCid c) s) h, Rejected e)]"
      "res = Inl e"
      by (auto simp: upload_add_def)
    then show thesis by (rule that(1))
  qed
qed

lemma put_car_cases [consumes 2, case_names refused put_rejected add_rejected finalized]:
  assumes run: "put_car axios E w tr c s d = (res, tr', w')"
    and hdrs: "bridgeHeaders E = Inr h"
  obtains
      "tr' = tr" "w' = w"
      "\<not> truthy (putUrl_of d)"
      "res = Inr \<lparr>status = 502,
              body = JObj [(''ok'', JBool False), (''error'', JStr ''Bridge did not return a PUT URL''),
                           (''bridge'', d)]\<rparr>"
  | e where
      "tr' = tr @ [(Put (putUrl_of d) (carBytes c) (putHeaders_of d), Rejected e)]"
      "truthy (putUrl_of d)" "res = Inl e"
  | r e where
      "tr' = tr @ [(Put (putUrl_of d) (carBytes c) (putHeaders_of d), Resolved r),
                   (Post (bridge_url E) (tasksUpload E (rootCid c) s) h, Rejected e)]"
      "truthy (putUrl_of d)" "res = Inl e"
  | r u where
      "tr' = tr @ [(Put (putUrl_of d) (carBytes c) (putHeaders_of d), Resolved r),
                   (Post (bridge_url E) (tasksUpload E (rootCid c) s) h, Resolved u)]"
      "truthy (putUrl_of d)"
      "res = Inr \<lparr>status = 200,
                     body = JObj [(''ok'', JBool True), (''rootCid'', JStr (rootCid c)),
                                  (''gatewayUrl'', JStr (gateway_base E @ rootCid c))]\<rparr>"
proof (cases "truthy (putUrl_of d)")
  case False
  with run show thesis
    by (intro that(1)) (auto simp: put_car_def)
next
  case url: True
  obtain r2 w1 where ax: "axios w (Put (putUrl_of d) (carBytes c) (putHeaders_of d)) = (r2, w1)"
    by (cases "axios w (Put (putUrl_of d) (carBytes c) (putHeaders_of d))")
  show thesis
  proof (cases r2)
    case (Rejected e)
    with run url ax show thesis
      by (intro that(2)) (auto simp: put_car_def)
  next
    case (Resolved r)
    with run url ax have
      "upload_add axios E w1 (tr @ [(Put (putUrl_of d) (carBytes c) (putHeaders_of d), Resolved r)]) c s
         = (res, tr', w')"
      by (simp add: put_car_def)
    from this hdrs show thesis
    proof (cases rule: upload_add_cases)
      case (add_rejected e)
      with url show thesis by (intro that(3)) auto
    next
      case (finalized u)
      with url show thesis by (intro that(4)) auto
    qed
  qed
qed


lemma upload_try_cases [consumes 1, case_names nocall rejected refused put_rejected add_rejected finalized]:
  assumes run: "upload_try L axios E w req = (res, tr, w')"
  obtains
    "tr = []" "w' = w"
  | c h e where
      "tr = [(Post (bridge_url E) (tasksStore E (carCid L (carBytes (c::car))) (length (carBytes c))) h, Rejected e)]"
      "res = Inl e"
  | c h d where
      "tr = [(Post (bridge_url E) (tasksStore E (carCid L (carBytes (c::car))) (length (carBytes c))) h, Resolved d)]"
      "\<not> truthy (putUrl_of d)"
      "res = Inr \<lparr>status = 502,
              body = JObj [(''ok'', JBool False), (''error'', JStr ''Bridge did not return a PUT URL''),
                           (''bridge'', d)]\<rparr>"
  | c h d e where
      "tr = [(Post (bridge_url E) (tasksStore E (carCid L (carBytes (c::car))) (length (carBytes c))) h, Resolved d),
             (Put (putUrl_of d) (carBytes c) (putHeaders_of d), Rejected e)]"
      "truthy (putUrl_of d)" "res = Inl e"
  | c h d r e where
      "tr = [(Post (bridge_url E) (tasksStore E (carCid L (carBytes (c::car))) (length (carBytes c))) h, Resolved d),
             (Put (putUrl_of d) (carBytes c) (putHeaders_of d), Resolved r),
             (Post (bridge_url E) (tasksUpload E (rootCid c) (carCid L (carBytes c))) h, Rejected e)]"
      "truthy (putUrl_of d)" "res = Inl e"
  | c h d r u where
      "tr = [(Post (bridge_url E) (tasksStore E (carCid L (carBytes (c::car))) (length (carBytes c))) h, Resolved d),
             (Put (putUrl_of d) (carBytes c) (putHeaders_of d), Resolved r),
             (Post (bridge_url E) (tasksUpload E (rootCid c) (carCid L (carBytes c))) h, Resolved u)]"
      "truthy (putUrl_of d)"
      "res = Inr \<lparr>status = 200,
                     body = JObj [(''ok'', JBool True), (''rootCid'', JStr (rootCid c)),
                                  (''gatewayUrl'', JStr (gateway_base E @ rootCid c))]\<rparr>"
proof -
  let ?content = "js_get (js_or req (JObj [])) ''contentBase64''"
  show thesis
  proof (cases "\<not> truthy (js_get (js_or req (JObj [])) ''fileName'') \<or> \<not> truthy ?content")
    case True
    with run show thesis by (intro that(1)) (auto simp: upload_try_def)
  next
    case present: False
    show thesis
    proof (cases "Buffer_from_base64 L ?content")
      case (Inl e)
      with run present show thesis by (intro that(1)) (auto simp: upload_try_def)
    next
      case decoded: (Inr bs)
      show thesis
      proof (cases "bytesToCar L bs")
        case (Inl e)
        with run present decoded show thesis by (intro that(1)) (auto simp: upload_try_def)
      next
        case packed: (Inr c)
        show thesis
        proof (cases "bridgeHeaders E")
          case (Inl e)
          with run present decoded packed show thesis
            by (intro that(1)) (auto simp: upload_try_def)
        next
          case hdrs: (Inr h)
          let ?call1 = "Post (bridge_url E) (tasksStore E (carCid L (carBytes c)) (length (carBytes c))) h"
          obtain r1 w1 where ax: "axios w ?call1 = (r1, w1)"
            by (cases "axios w ?call1")
          show thesis
          proof (cases r1)
            case (Rejected e)
            with run present decoded packed hdrs ax show thesis
              by (intro that(2)[of c h e]) (auto simp: upload_try_def)
          next
            case (Resolved d)
            with run present decoded packed hdrs ax have
              "put_car axios E w1 [(?call1, Resolved d)] c (carCid L (carBytes c)) d = (res, tr, w')"
              by (simp add: upload_try_def Let_def)
            from this hdrs show thesis
            proof (cases rule: put_car_cases)
              case refused
              then show thesis by (intro that(3)[of c h d]) auto
            next
              case (put_rejected e)
              then show thesis by (intro that(4)[of c h d e]) auto
            next
              case (add_rejected r e)
              then show thesis by (intro that(5)[of c h d r e]) auto
            next
              case (finalized r u)
              then show thesis by (intro that(6)[of c h d r u]) auto
            qed
          qed
        qed
      qed
    qed
  qed
qed

lemma upload_try_of_run:
  "\<exists>res. upload_try L axios E w req = (res, trace_of (upload L axios E w req), world_of (upload L axios E w req))
     \<and> response_of (upload L axios E w req) =
         (case res of
            Inl e \<Rightarrow> \<lparr>status = 500, body = JObj [(''ok'', JBool False), (''error'', catch_error e)]\<rparr>
          | Inr r \<Rightarrow> r)"
  by (cases "upload_try L axios E w req")
     (auto simp: upload_def trace_of_def world_of_def response_of_def split: sum.splits)

text \<open>Unfolding the samples, to evaluate a run of the handler on them.\<close>

lemmas sample_defs =
  upload_def upload_try_def put_car_def upload_add_def request_def js_or_def
  sample_packages_def sample_Buffer_from_def base64_decode_def unbase64_def
  bytesToCar_def sample_chunker_def encode_car_def Let_def createV1_def
  sample_cid_bytes_def sample_sha256_def carCid_def sha256_digest_def CAR_CODE_def
  bridgeHeaders_def sample_env_def env_val_def granting_bridge_def refusing_bridge_def
  refusal_def tasksStore_def tasksUpload_def putUrl_of_def putHeaders_of_def
  bridge_url_def gateway_base_def trace_of_def response_of_def world_of_def

section \<open>Determinism of the archive construction\<close>

text \<open>
  The pipeline: a step cannot change what the pipeline can still make of \<^verbatim>\<open>carChunks\<close>, so
  with a deterministic encoder all schedules that finish leave the same \<^verbatim>\<open>carChunks\<close>.
\<close>

lemma step_outcome: "pipe_step R s s' \<Longrightarrow> outcome R s' out \<Longrightarrow> outcome R s out"
proof (induction rule: pipe_step.induct)
  case (step_pull s b bs)
  from step_pull(2) obtain cs1 cs2 where
    q: "list_all2 (block_chunk R) (q_blocks s @ [b]) cs1" and
    a: "list_all2 (block_chunk R) bs cs2" and
    out: "out = arr_carChunks s @ q_chunks s @ cs1 @ cs2"
    by (auto simp: outcome_def)
  from q obtain ds c where cs1: "cs1 = ds @ [c]" and ds: "list_all2 (block_chunk R) (q_blocks s) ds"
    and c: "block_chunk R b c"
    by (auto simp: list_all2_append1 list_all2_Cons1)
  from a c step_pull(1) have "list_all2 (block_chunk R) (arr_blocks s) (c # cs2)"
    by simp
  with ds out cs1 show ?case
    unfolding outcome_def by (intro exI [of _ ds] exI [of _ "c # cs2"]) simp
next
  case (step_transform s b bs c)
  from step_transform(3) obtain cs1 cs2 where
    q: "list_all2 (block_chunk R) bs cs1" and
    a: "list_all2 (block_chunk R) (arr_blocks s) cs2" and
    out: "out = arr_carChunks s @ (q_chunks s @ [c]) @ cs1 @ cs2"
    by (auto simp: outcome_def)
  from q step_transform(1,2) have "list_all2 (block_chunk R) (q_blocks s) (c # cs1)"
    by simp
  with a out show ?case
    unfolding outcome_def by (intro exI [of _ "c # cs1"] exI [of _ cs2]) simp
next
  case (step_write s c cs)
  from step_write(2) obtain cs1 cs2 where
    q: "list_all2 (block_chunk R) (q_blocks s) cs1" and
    a: "list_all2 (block_chunk R) (arr_blocks s) cs2" and
    out: "out = (arr_carChunks s @ [c]) @ cs @ cs1 @ cs2"
    by (auto simp: outcome_def)
  with step_write(1) show ?case
    unfolding outcome_def by (intro exI [of _ cs1] exI [of _ cs2]) simp
qed

lemma steps_outcome: "rtranclp (pipe_step R) s t \<Longrightarrow> outcome R t out \<Longrightarrow> outcome R s out"
  by (induction rule: rtranclp_induct) (blast intro: step_outcome)+

lemma finished_outcome: "finished t \<Longrightarrow> outcome R t out \<longleftrightarrow> out = arr_carChunks t"
  by (simp add: finished_def outcome_def)

lemma chunks_unique:
  "list_all2 (block_chunk R) bs xs \<Longrightarrow> list_all2 (block_chunk R) bs ys \<Longrightarrow> deterministic R \<Longrightarrow> xs = ys"
proof (induction arbitrary: ys rule: list_all2_induct)
  case Nil
  then show ?case by simp
next
  case (Cons b bs c cs)
  from Cons.prems(1) obtain y ys' where ys: "ys = y # ys'" and y: "block_chunk R b y"
    and rest: "list_all2 (block_chunk R) bs ys'"
    by (auto simp: list_all2_Cons1)
  from Cons.hyps(1) y Cons.prems(2) have "c = y"
    unfolding deterministic_def by blast
  moreover from rest Cons.prems(2) have "cs = ys'" by (rule Cons.IH)
  ultimately show ?case using ys by simp
qed

lemma outcome_unique:
  assumes "deterministic R" "outcome R s x" "outcome R s y"
  shows "x = y"
proof -
  from assms(2) obtain a1 a2 where
    a: "list_all2 (block_chunk R) (q_blocks s) a1" "list_all2 (block_chunk R) (arr_blocks s) a2"
       "x = arr_carChunks s @ q_chunks s @ a1 @ a2"
    unfolding outcome_def by blast
  from assms(3) obtain b1 b2 where
    b: "list_all2 (block_chunk R) (q_blocks s) b1" "list_all2 (block_chunk R) (arr_blocks s) b2"
       "y = arr_carChunks s @ q_chunks s @ b1 @ b2"
    unfolding outcome_def by blast
  from a(1) b(1) assms(1) have "a1 = b1" by (rule chunks_unique)
  moreover from a(2) b(2) assms(1) have "a2 = b2" by (rule chunks_unique)
  ultimately show ?thesis using a(3) b(3) by simp
qed

lemma pipe_deterministic:
  assumes "deterministic R" "rtranclp (pipe_step R) s t1" "finished t1"
    "rtranclp (pipe_step R) s t2" "finished t2"
  shows "arr_carChunks t1 = arr_carChunks t2"
proof -
  have "outcome R t1 (arr_carChunks t1)" "outcome R t2 (arr_carChunks t2)"
    using assms(3,5) by (simp_all add: finished_outcome)
  with assms(2,4) have "outcome R s (arr_carChunks t1)" "outcome R s (arr_carChunks t2)"
    by (blast intro: steps_outcome)+
  with assms(1) show ?thesis by (rule outcome_unique)
qed


text \<open>A schedule that completes: the header is written, then each block is pulled, transformed and written.\<close>

lemma write_all:
  "rtranclp (pipe_step R) \<lparr>arr_blocks = bs, q_blocks = [], q_chunks = qc, arr_carChunks = car\<rparr>
     \<lparr>arr_blocks = bs, q_blocks = [], q_chunks = [], arr_carChunks = car @ qc\<rparr>"
proof (induction qc arbitrary: car)
  case Nil
  show ?case by simp
next
  case (Cons c qc)
  have "pipe_step R \<lparr>arr_blocks = bs, q_blocks = [], q_chunks = c # qc, arr_carChunks = car\<rparr>
      \<lparr>arr_blocks = bs, q_blocks = [], q_chunks = qc, arr_carChunks = car @ [c]\<rparr>"
    using step_write [of "\<lparr>arr_blocks = bs, q_blocks = [], q_chunks = c # qc, arr_carChunks = car\<rparr>" c qc R]
    by simp
  with Cons [of "car @ [c]"] show ?case
    by (simp add: converse_rtranclp_into_rtranclp)
qed

lemma one_by_one:
  "\<forall>b \<in> set bs. block_chunk R b (f b) \<Longrightarrow>
   rtranclp (pipe_step R) \<lparr>arr_blocks = bs, q_blocks = [], q_chunks = [], arr_carChunks = car\<rparr>
     \<lparr>arr_blocks = [], q_blocks = [], q_chunks = [], arr_carChunks = car @ map f bs\<rparr>"
proof (induction bs arbitrary: car)
  case Nil
  show ?case by simp
next
  case (Cons b bs)
  let ?s0 = "\<lparr>arr_blocks = b # bs, q_blocks = [], q_chunks = [], arr_carChunks = car\<rparr>"
  let ?s1 = "\<lparr>arr_blocks = bs, q_blocks = [b], q_chunks = [], arr_carChunks = car\<rparr>"
  let ?s2 = "\<lparr>arr_blocks = bs, q_blocks = [], q_chunks = [f b], arr_carChunks = car\<rparr>"
  let ?s3 = "\<lparr>arr_blocks = bs, q_blocks = [], q_chunks = [], arr_carChunks = car @ [f b]\<rparr>"
  have 1: "pipe_step R ?s0 ?s1"
    using step_pull [of ?s0 b bs R] by simp
  have 2: "pipe_step R ?s1 ?s2"
    using step_transform [of ?s1 b "[]" R "f b"] Cons.prems by simp
  have 3: "pipe_step R ?s2 ?s3"
    using step_write [of ?s2 "f b" "[]" R] by simp
  have "rtranclp (pipe_step R) ?s3
      \<lparr>arr_blocks = [], q_blocks = [], q_chunks = [], arr_carChunks = (car @ [f b]) @ map f bs\<rparr>"
    using Cons.prems by (intro Cons.IH) simp
  with 1 2 3 show ?case
    by (simp add: converse_rtranclp_into_rtranclp)
qed

lemma complete_schedule:
  assumes "\<forall>b \<in> set bs. block_chunk R b (f b)"
  shows "rtranclp (pipe_step R) \<lparr>arr_blocks = bs, q_blocks = [], q_chunks = [h], arr_carChunks = []\<rparr>
     \<lparr>arr_blocks = [], q_blocks = [], q_chunks = [], arr_carChunks = h # map f bs\<rparr>"
  using write_all [of R bs "[h]" "[]"] one_by_one [OF assms, of "[h]"]
  by simp

lemma bytesToCar_run_of:
  "bytesToCar_run (calls_of L) bs (bytesToCar L bs)"
proof (cases "createFileEncoderStream L bs = []")
  case True
  then show ?thesis
    using no_block [of "calls_of L" bs "[]"]
    by (simp add: bytesToCar_empty_stream calls_of_def)
next
  case False
  let ?blocks = "createFileEncoderStream L bs"
  let ?t = "\<lparr>arr_blocks = [], q_blocks = [], q_chunks = [],
             arr_carChunks = encodeHeader L [cid (last ?blocks)] # map (encodeBlock L) ?blocks\<rparr>"
  have run: "rtranclp (pipe_step (calls_of L))
      \<lparr>arr_blocks = pipeTo_push ?blocks [], q_blocks = [],
        q_chunks = [encodeHeader L [cid (last ?blocks)]], arr_carChunks = []\<rparr> ?t"
    using complete_schedule [of ?blocks "calls_of L" "encodeBlock L" "encodeHeader L [cid (last ?blocks)]"]
    by (simp add: calls_of_def pipeTo_push_append)
  have "bytesToCar_run (calls_of L) bs
      (Inr \<lparr>rootCid = CID_toString L (cid (last ?blocks)), carBytes = concat (arr_carChunks ?t)\<rparr>)"
    using False run
    by (intro packed [of "calls_of L" bs ?blocks "last ?blocks" "encodeHeader L [cid (last ?blocks)]" ?t])
       (simp_all add: calls_of_def pipeTo_push_append at_last_Some finished_def)
  with False show ?thesis by (simp add: bytesToCar_eq)
qed

lemma deterministic_calls_of: "deterministic (calls_of L)"
  by (simp add: deterministic_def calls_of_def)

lemma bytesToCar_run_unique:
  assumes det: "deterministic R" and r1: "bytesToCar_run R p r1" and r2: "bytesToCar_run R p r2"
  shows "r1 = r2"
  using r1
proof (cases rule: bytesToCar_run.cases)
  case (no_block stream)
  from r2 show ?thesis
  proof (cases rule: bytesToCar_run.cases)
    case (no_block stream')
    with \<open>r1 = _\<close> show ?thesis by simp
  next
    case (packed stream' b h t token)
    from det no_block(2) packed(2) have "stream = stream'"
      unfolding deterministic_def by blast
    with no_block(3) packed(3) show ?thesis by simp
  qed
next
  case p1: (packed stream b h t token)
  from r2 show ?thesis
  proof (cases rule: bytesToCar_run.cases)
    case (no_block stream')
    from det p1(2) no_block(2) have "stream = stream'"
      unfolding deterministic_def by blast
    with no_block(3) p1(3) show ?thesis by simp
  next
    case p2: (packed stream' b' h' t' token')
    from det p1(2) p2(2) have s: "stream = stream'"
      unfolding deterministic_def by blast
    with p1(3) p2(3) have b: "b = b'" by simp
    from det p1(4) p2(4) b have h: "h = h'"
      unfolding deterministic_def by blast
    from det p1(7) p2(7) b have tok: "token = token'"
      unfolding deterministic_def by blast
    from det p1(5,6) p2(5,6) s h have "arr_carChunks t = arr_carChunks t'"
      by (auto intro: pipe_deterministic)
    with tok p1(1) p2(1) show ?thesis by simp
  qed
qed

lemma carCid_run_unique:
  assumes "deterministic R" "carCid_run R bs a1" "carCid_run R bs a2"
  shows "a1 = a2"
proof -
  from assms(2) obtain d1 where 1: "digests R bs d1"
    "renders R (createV1 CAR_CODE \<lparr>hash_code = 0x12, digest = d1\<rparr>) a1"
    by (auto elim: carCid_run.cases)
  from assms(3) obtain d2 where 2: "digests R bs d2"
    "renders R (createV1 CAR_CODE \<lparr>hash_code = 0x12, digest = d2\<rparr>) a2"
    by (auto elim: carCid_run.cases)
  from assms(1) 1(1) 2(1) have "d1 = d2" unfolding deterministic_def by blast
  with assms(1) 1(2) 2(2) show ?thesis unfolding deterministic_def by blast
qed

lemma carCid_run_of: "carCid_run (calls_of L) bs (carCid L bs)"
  by (auto intro!: carCid_run.intros simp: calls_of_def carCid_def sha256_digest_def)

lemma identifiers_run_unique:
  assumes det: "deterministic R" and i1: "identifiers_run R p i1" and i2: "identifiers_run R p i2"
  shows "i1 = i2"
  using i1
proof (cases rule: identifiers_run.cases)
  case t1: (thrown e)
  from i2 show ?thesis
  proof (cases rule: identifiers_run.cases)
    case (thrown e')
    with det t1 have "(Inl e :: jsval + car) = Inl e'"
      by (intro bytesToCar_run_unique [of R p])
    with t1 thrown show ?thesis by simp
  next
    case (derived c a)
    with det t1 have "(Inl e :: jsval + car) = Inr c"
      by (intro bytesToCar_run_unique [of R p])
    then show ?thesis by simp
  qed
next
  case d1: (derived c a)
  from i2 show ?thesis
  proof (cases rule: identifiers_run.cases)
    case (thrown e')
    with det d1 have "(Inr c :: jsval + car) = Inl e'"
      by (intro bytesToCar_run_unique [of R p])
    then show ?thesis by simp
  next
    case (derived c' a')
    with det d1 have "(Inr c :: jsval + car) = Inr c'"
      by (intro bytesToCar_run_unique [of R p])
    then have c: "c = c'" by simp
    with det d1(3) derived(3) have "a = a'"
      by (auto intro: carCid_run_unique)
    with c d1(1) derived(1) show ?thesis by simp
  qed
qed

lemma identifiers_run_of:
  "identifiers_run (calls_of L) bs
     (case bytesToCar L bs of Inl e \<Rightarrow> Inl e | Inr c \<Rightarrow> Inr (rootCid c, carCid L (carBytes c)))"
proof (cases "bytesToCar L bs")
  case (Inl e)
  with bytesToCar_run_of [of L bs] show ?thesis
    by (auto intro: identifiers_run.thrown)
next
  case (Inr c)
  with bytesToCar_run_of [of L bs] carCid_run_of [of L "carBytes c"] show ?thesis
    by (auto intro: identifiers_run.derived)
qed

lemma sample_bytesToCar:
  "bytesToCar sample_packages [104, 105] =
     Inr \<lparr>rootCid = replicate 85 CHR ''b'',
          carBytes = [1, 1, 85, 18, 2, 209, 2, 1, 85, 18, 2, 209, 104, 105]\<rparr>"
  by (simp add: sample_defs)

lemma sample_carCid:
  "carCid sample_packages [1, 1, 85, 18, 2, 209, 2, 1, 85, 18, 2, 209, 104, 105] = replicate 514 CHR ''b''"
  by (simp add: sample_packages_def carCid_def createV1_def CAR_CODE_def)

text \<open>
  The runs contain the function \<open>bytesToCar\<close> of the sections above: with packages given
  as functions, \<open>bytesToCar L bs\<close> is a run (lemma \<open>bytesToCar_run_of\<close>). Without the contract
  of the packages two runs on one payload may differ.
\<close>

lemma unstable_runs_differ:
  "bytesToCar_run unstable_calls [104, 105]
     (Inr \<lparr>rootCid = replicate 85 CHR ''b'',
           carBytes = [1, 1, 85, 18, 2, 209, 2, 1, 85, 18, 2, 209, 104, 105]\<rparr>)
   \<and> bytesToCar_run unstable_calls [104, 105]
     (Inr \<lparr>rootCid = replicate 85 CHR ''b'', carBytes = [1, 1, 85, 18, 2, 209]\<rparr>)"
proof -
  let ?blocks = "sample_chunker [104, 105]"
  let ?b = "last ?blocks"
  let ?h = "encodeHeader sample_packages [cid ?b]"
  have run: "rtranclp (pipe_step unstable_calls)
      \<lparr>arr_blocks = pipeTo_push ?blocks [], q_blocks = [], q_chunks = [?h], arr_carChunks = []\<rparr>
      \<lparr>arr_blocks = [], q_blocks = [], q_chunks = [], arr_carChunks = ?h # map f ?blocks\<rparr>"
    if "f = encodeBlock sample_packages \<or> f = (\<lambda>b. [])" for f
    using that complete_schedule [of ?blocks unstable_calls f ?h]
    by (auto simp: unstable_calls_def pipeTo_push_append)
  have "bytesToCar_run unstable_calls [104, 105]
      (Inr \<lparr>rootCid = CID_toString sample_packages (cid ?b),
            carBytes = concat (?h # map f ?blocks)\<rparr>)"
    if "f = encodeBlock sample_packages \<or> f = (\<lambda>b. [])" for f
    using run [OF that]
      packed [of unstable_calls "[104, 105]" ?blocks ?b ?h
        "\<lparr>arr_blocks = [], q_blocks = [], q_chunks = [], arr_carChunks = ?h # map f ?blocks\<rparr>"
        "CID_toString sample_packages (cid ?b)"]
    by (simp add: unstable_calls_def calls_of_def sample_packages_def sample_chunker_def finished_def)
  from this [of "encodeBlock sample_packages"] this [of "\<lambda>b. []"] show ?thesis
    by (simp add: sample_packages_def sample_chunker_def createV1_def sample_cid_bytes_def
          sample_sha256_def)
qed

text \<open>
  C1. With deterministic packages, two runs of the archive construction on the same
  payload agree, whatever the schedules of their pipelines: two runs of \<^verbatim>\<open>bytesToCar\<close> return
  the same root token and the same archive bytes, or throw the same value; two runs of
  \<^verbatim>\<open>carCid\<close> on the same bytes return the same archive token; and two runs of lines 92 to 94
  derive the same pair of root token and archive token.
\<close>

theorem archive_runs_agree:
  assumes "deterministic R"
    and "bytesToCar_run R p r1" and "bytesToCar_run R p r2"
    and "carCid_run R bs a1" and "carCid_run R bs a2"
    and "identifiers_run R p i1" and "identifiers_run R p i2"
  shows "r1 = r2 \<and> a1 = a2 \<and> i1 = i2"
  using assms
  by (blast intro: bytesToCar_run_unique carCid_run_unique identifiers_run_unique)

theorem archive_runs_agree_witness:
  "deterministic (calls_of sample_packages)
   \<and> bytesToCar_run (calls_of sample_packages) [104, 105]
       (Inr \<lparr>rootCid = replicate 85 CHR ''b'',
             carBytes = [1, 1, 85, 18, 2, 209, 2, 1, 85, 18, 2, 209, 104, 105]\<rparr>)
   \<and> carCid_run (calls_of sample_packages) [1, 1, 85, 18, 2, 209, 2, 1, 85, 18, 2, 209, 104, 105]
       (replicate 514 CHR ''b'')
   \<and> identifiers_run (calls_of sample_packages) [104, 105]
       (Inr (replicate 85 CHR ''b'', replicate 514 CHR ''b''))
   \<and> (\<forall>r. bytesToCar_run (calls_of sample_packages) [104, 105] r \<longleftrightarrow>
          r = Inr \<lparr>rootCid = replicate 85 CHR ''b'',
                   carBytes = [1, 1, 85, 18, 2, 209, 2, 1, 85, 18, 2, 209, 104, 105]\<rparr>)"
proof -
  let ?R = "calls_of sample_packages"
  let ?c = "\<lparr>rootCid = replicate 85 CHR ''b'',
             carBytes = [1, 1, 85, 18, 2, 209, 2, 1, 85, 18, 2, 209, 104, 105]\<rparr>"
  have det: "deterministic ?R" by (rule deterministic_calls_of)
  have run: "bytesToCar_run ?R [104, 105] (Inr ?c)"
    using bytesToCar_run_of [of sample_packages "[104, 105]"] by (simp add: sample_bytesToCar)
  have car: "carCid_run ?R [1, 1, 85, 18, 2, 209, 2, 1, 85, 18, 2, 209, 104, 105] (replicate 514 CHR ''b'')"
    using carCid_run_of [of sample_packages "[1, 1, 85, 18, 2, 209, 2, 1, 85, 18, 2, 209, 104, 105]"]
    by (simp add: sample_carCid)
  have ids: "identifiers_run ?R [104, 105] (Inr (replicate 85 CHR ''b'', replicate 514 CHR ''b''))"
    using identifiers_run_of [of sample_packages "[104, 105]"]
    by (simp add: sample_bytesToCar sample_carCid)
  have "r = Inr ?c" if "bytesToCar_run ?R [104, 105] r" for r
    using archive_runs_agree [OF det that run car car ids ids] by simp
  with det run car ids show ?thesis by blast
qed

section \<open>The size announced and the bytes transferred\<close>

text \<open>
  C2. Whenever a run of the handler issues the PUT, the first call of the run is the
  \<^verbatim>\<open>store/add\<close> task and the \<^verbatim>\<open>size\<close> it announces is the length of the body of that PUT.
\<close>

theorem size_sent_is_length_transferred:
  assumes "(Put u b hs, r) \<in> set (trace_of (upload L axios E w req))"
  shows "task_name (fst (hd (trace_of (upload L axios E w req)))) = JStr ''store/add'' \<and>
         js_get (task_args (fst (hd (trace_of (upload L axios E w req))))) ''size''
           = JNum (real (length b))"
proof -
  obtain res where
    "upload_try L axios E w req = (res, trace_of (upload L axios E w req), world_of (upload L axios E w req))"
    using upload_try_of_run[of L axios E w req] by blast
  then show ?thesis using assms
    by (cases rule: upload_try_cases) auto
qed

theorem size_sent_is_length_transferred_witness:
  "(Put (JStr ''https://signed.example/car'')
        [1, 1, 85, 18, 2, 209, 2, 1, 85, 18, 2, 209, 104, 105] (JObj []), Resolved (JStr []))
     \<in> set (trace_of (upload sample_packages granting_bridge sample_env 0 (request ''a.txt'' ''aGk='')))
   \<and> js_get (task_args (fst (hd (trace_of
         (upload sample_packages granting_bridge sample_env 0 (request ''a.txt'' ''aGk='')))))) ''size''
       = JNum 14"
proof -
  have h: "(Put (JStr ''https://signed.example/car'')
        [1, 1, 85, 18, 2, 209, 2, 1, 85, 18, 2, 209, 104, 105] (JObj []), Resolved (JStr []))
     \<in> set (trace_of (upload sample_packages granting_bridge sample_env 0 (request ''a.txt'' ''aGk='')))"
    by (simp add: sample_defs)
  from size_sent_is_length_transferred [OF h] h show ?thesis by simp
qed

section \<open>An authorization without a signed URL\<close>

text \<open>
  C3, as stated: whenever the answer of the bridge to \<^verbatim>\<open>store/add\<close> holds no signed URL, the
  response of the handler carries the body of that answer in the field \<^verbatim>\<open>bridge\<close>. It does
  not when the bridge answers with an error status: here the bridge answers 401 with the
  body \<open>refusal\<close>, which holds no URL; \<^verbatim>\<open>axios.post\<close> rejects, the \<^verbatim>\<open>catch\<close> answers 500 with that
  body in the field \<^verbatim>\<open>error\<close>, and the response has no field \<^verbatim>\<open>bridge\<close>.
\<close>

theorem rejected_authorization_has_no_bridge_field_counterexample:
  "snd (hd (trace_of (upload sample_packages rejecting_bridge sample_env 0 (request ''a.txt'' ''aGk=''))))
     = Rejected rejection
   \<and> js_get (js_get rejection ''response'') ''data'' = refusal
   \<and> \<not> truthy (putUrl_of refusal)
   \<and> response_of (upload sample_packages rejecting_bridge sample_env 0 (request ''a.txt'' ''aGk='')) =
       \<lparr>status = 500, body = JObj [(''ok'', JBool False), (''error'', refusal)]\<rparr>
   \<and> js_get (body (response_of
         (upload sample_packages rejecting_bridge sample_env 0 (request ''a.txt'' ''aGk='')))) ''bridge''
       = JUndefined"
  by (simp add: sample_defs rejecting_bridge_def rejection_def catch_error_def)

text \<open>
  C3, amended. When the \<^verbatim>\<open>store/add\<close> call gives no signed URL, it is the only call of the
  run: no PUT, no \<^verbatim>\<open>upload/add\<close>. When it resolves with a body in which no signed URL is
  found, the handler answers 502 with that body, unchanged, in the field \<^verbatim>\<open>bridge\<close>; when it
  rejects, the handler answers 500 with, in the field \<^verbatim>\<open>error\<close>, what the \<^verbatim>\<open>catch\<close> takes from
  the value thrown (the body of the bridge's answer when there is one).
\<close>

theorem no_signed_url_no_transfer:
  assumes "trace_of (upload L axios E w req) = (c, r) # rest" and "\<not> granted r"
  shows "rest = [] \<and> task_name c = JStr ''store/add'' \<and>
         response_of (upload L axios E w req) =
           (case r of
              Resolved storeResp \<Rightarrow>
                \<lparr>status = 502,
                 body = JObj [(''ok'', JBool False), (''error'', JStr ''Bridge did not return a PUT URL''),
                              (''bridge'', storeResp)]\<rparr>
            | Rejected e \<Rightarrow>
                \<lparr>status = 500, body = JObj [(''ok'', JBool False), (''error'', catch_error e)]\<rparr>)"
proof -
  obtain res where
    run: "upload_try L axios E w req = (res, trace_of (upload L axios E w req), world_of (upload L axios E w req))"
    and resp: "response_of (upload L axios E w req) =
         (case res of
            Inl e \<Rightarrow> \<lparr>status = 500, body = JObj [(''ok'', JBool False), (''error'', catch_error e)]\<rparr>
          | Inr r \<Rightarrow> r)"
    using upload_try_of_run[of L axios E w req] by blast
  from run show ?thesis using assms resp
    by (cases rule: upload_try_cases) auto
qed

theorem no_signed_url_no_transfer_witness:
  "\<not> granted (Rejected rejection)
   \<and> tl (trace_of (upload sample_packages rejecting_bridge sample_env 0 (request ''a.txt'' ''aGk=''))) = []
   \<and> response_of (upload sample_packages rejecting_bridge sample_env 0 (request ''a.txt'' ''aGk='')) =
       \<lparr>status = 500, body = JObj [(''ok'', JBool False), (''error'', refusal)]\<rparr>
   \<and> \<not> granted (Resolved refusal)
   \<and> tl (trace_of (upload sample_packages refusing_bridge sample_env 0 (request ''a.txt'' ''aGk=''))) = []
   \<and> response_of (upload sample_packages refusing_bridge sample_env 0 (request ''a.txt'' ''aGk='')) =
       \<lparr>status = 502,
        body = JObj [(''ok'', JBool False), (''error'', JStr ''Bridge did not return a PUT URL''),
                     (''bridge'', refusal)]\<rparr>"
proof -
  let ?tr1 = "trace_of (upload sample_packages rejecting_bridge sample_env 0 (request ''a.txt'' ''aGk=''))"
  let ?tr2 = "trace_of (upload sample_packages refusing_bridge sample_env 0 (request ''a.txt'' ''aGk=''))"
  have a1: "?tr1 = (fst (hd ?tr1), Rejected rejection) # tl ?tr1"
    by (simp add: sample_defs rejecting_bridge_def)
  have a2: "\<not> granted (Rejected rejection)" by simp
  have b1: "?tr2 = (fst (hd ?tr2), Resolved refusal) # tl ?tr2"
    by (simp add: sample_defs)
  have b2: "\<not> granted (Resolved refusal)"
    by (simp add: refusal_def putUrl_of_def js_or_def)
  have e: "catch_error rejection = refusal"
    by (simp add: catch_error_def rejection_def refusal_def js_or_def)
  from no_signed_url_no_transfer [OF a1 a2] no_signed_url_no_transfer [OF b1 b2] a2 b2 e
  show ?thesis by simp
qed

section \<open>The order of the phases\<close>



section \<open>Missing authentication material\<close>

text \<open>
  C5. When the secret, the authorization value or the space identifier is absent from the
  environment (or is the empty string), every run of the handler ends without a single
  call to the network, leaves the world as it was, and answers with a failure.
\<close>

theorem missing_credentials_no_network_call:
  assumes "\<not> truthy (env_val (STORACHA_X_AUTH_SECRET E)) \<or> \<not> truthy (env_val (STORACHA_AUTH E))
           \<or> \<not> truthy (env_val (SPACE_DID E))"
  shows "trace_of (upload L axios E w req) = [] \<and> world_of (upload L axios E w req) = w
         \<and> status (response_of (upload L axios E w req)) \<noteq> 200
         \<and> js_get (body (response_of (upload L axios E w req))) ''ok'' = JBool False"
proof -
  from assms have
    "bridgeHeaders E = Inl (Error ''Missing STORACHA_X_AUTH_SECRET, STORACHA_AUTH, or SPACE_DID in .env'')"
    by (simp add: bridgeHeaders_def)
  then show ?thesis
    by (simp add: upload_def upload_try_def trace_of_def world_of_def response_of_def Let_def
             split: sum.splits)
qed

theorem missing_credentials_no_network_call_witness:
  "SPACE_DID (sample_env\<lparr>SPACE_DID := None\<rparr>) = None
   \<and> trace_of (upload sample_packages granting_bridge (sample_env\<lparr>SPACE_DID := None\<rparr>) 0
        (request ''a.txt'' ''aGk='')) = []
   \<and> status (response_of (upload sample_packages granting_bridge (sample_env\<lparr>SPACE_DID := None\<rparr>) 0
        (request ''a.txt'' ''aGk=''))) \<noteq> 200"
proof -
  have h: "\<not> truthy (env_val (STORACHA_X_AUTH_SECRET (sample_env\<lparr>SPACE_DID := None\<rparr>)))
           \<or> \<not> truthy (env_val (STORACHA_AUTH (sample_env\<lparr>SPACE_DID := None\<rparr>)))
           \<or> \<not> truthy (env_val (SPACE_DID (sample_env\<lparr>SPACE_DID := None\<rparr>)))"
    by (simp add: env_val_def)
  from missing_credentials_no_network_call [OF h, of sample_packages granting_bridge 0 "request ''a.txt'' ''aGk=''"]
  show ?thesis by simp
qed

section \<open>Root token and archive token\<close>

text \<open>
  C6. With tokens that show the content-type code and a chunker that labels its blocks
  with a file code, the root token and the archive token of one payload are different
  strings: the archive identifier is made with the CAR code \<open>0x0202\<close>, the root identifier
  is the identifier of the last block.
\<close>

theorem root_and_archive_tokens_differ:
  assumes "tokens_show_code L" and "chunker_file_codes L p" and "bytesToCar L p = Inr c"
  shows "rootCid c \<noteq> carCid L (carBytes c)"
proof -
  let ?blocks = "createFileEncoderStream L p"
  from assms(3) have ne: "?blocks \<noteq> []"
    by (auto simp: bytesToCar_empty_stream)
  with assms(3) have root: "rootCid c = CID_toString L (cid (last ?blocks))"
    by (auto simp: bytesToCar_eq)
  from ne have "last ?blocks \<in> set ?blocks" by simp
  with assms(2) have "code (cid (last ?blocks)) \<noteq> CAR_CODE"
    by (simp add: chunker_file_codes_def list_all_iff)
  moreover have "code (createV1 CAR_CODE (sha256_digest L (carBytes c))) = CAR_CODE"
    by (simp add: createV1_def)
  ultimately have "CID_toString L (cid (last ?blocks))
                   \<noteq> CID_toString L (createV1 CAR_CODE (sha256_digest L (carBytes c)))"
    using assms(1) unfolding tokens_show_code_def by metis
  with root show ?thesis by (simp add: carCid_def)
qed

theorem root_and_archive_tokens_differ_witness:
  "bytesToCar sample_packages [104, 105] =
     Inr \<lparr>rootCid = replicate 85 CHR ''b'',
          carBytes = [1, 1, 85, 18, 2, 209, 2, 1, 85, 18, 2, 209, 104, 105]\<rparr>
   \<and> replicate 85 CHR ''b'' \<noteq> carCid sample_packages [1, 1, 85, 18, 2, 209, 2, 1, 85, 18, 2, 209, 104, 105]"
proof -
  have h1: "tokens_show_code sample_packages"
    by (simp add: tokens_show_code_def sample_packages_def)
  have h2: "chunker_file_codes sample_packages [104, 105]"
    by (simp add: chunker_file_codes_def sample_packages_def sample_chunker_def createV1_def CAR_CODE_def)
  have h3: "bytesToCar sample_packages [104, 105] =
     Inr \<lparr>rootCid = replicate 85 CHR ''b'',
          carBytes = [1, 1, 85, 18, 2, 209, 2, 1, 85, 18, 2, 209, 104, 105]\<rparr>"
    by (simp add: sample_defs)
  from root_and_archive_tokens_differ [OF h1 h2 h3] h3 show ?thesis by simp
qed

section \<open>The empty payload\<close>

text \<open>
  C7. For the empty payload, when the chunker delivers at least one block, the last block
  is defined, \<^verbatim>\<open>bytesToCar\<close> returns without throwing, the header of the archive declares one
  root, the identifier of the last block, and the archive holds the blocks delivered.
\<close>

theorem empty_payload_archive:
  assumes "chunker_emits L []"
  shows "at_last (createFileEncoderStream L []) = Some (last (createFileEncoderStream L []))
     \<and> bytesToCar L [] =
         Inr \<lparr>rootCid = CID_toString L (cid (last (createFileEncoderStream L []))),
              carBytes = encodeHeader L [cid (last (createFileEncoderStream L []))]
                         @ concat (map (encodeBlock L) (createFileEncoderStream L []))\<rparr>"
  using assms by (simp add: chunker_emits_def at_last_Some bytesToCar_eq)

theorem empty_payload_archive_witness:
  "chunker_emits sample_packages []
   \<and> bytesToCar sample_packages [] =
       Inr \<lparr>rootCid = replicate 85 CHR ''b'', carBytes = [1, 1, 85, 18, 0, 0, 0, 1, 85, 18, 0, 0]\<rparr>"
proof -
  have h: "chunker_emits sample_packages []"
    by (simp add: chunker_emits_def sample_packages_def sample_chunker_def)
  from empty_payload_archive [OF h] h show ?thesis
    by (simp add: sample_packages_def sample_chunker_def createV1_def sample_cid_bytes_def
          sample_sha256_def)
qed

section \<open>What the encoding does to the array of blocks\<close>

text \<open>
  C8, as stated: after the encoding the block sequence given is unchanged. It is not: the
  encoding takes every block off the array \<^verbatim>\<open>blocks\<close>, which is empty afterwards. Here the
  array holds the one block of the payload \<^verbatim>\<open>hi\<close>.
\<close>

theorem encode_car_leaves_blocks_unchanged_counterexample:
  "fst (encode_car sample_packages [cid (last (sample_chunker [104, 105]))] (sample_chunker [104, 105]))
     \<noteq> sample_chunker [104, 105]"
  by (simp add: encode_car_def sample_chunker_def)

text \<open>
  C8, amended. The encoding empties the array of blocks and changes no block; the chunks
  of the archive are the header for the roots, then one chunk for each block, in the
  order in which the blocks were in the array.
\<close>

theorem encode_car_consumes_blocks_in_order:
  "encode_car L roots blocks = ([], encodeHeader L roots # map (encodeBlock L) blocks)"
  by (simp add: encode_car_def pull_all_eq)

theorem encode_car_consumes_blocks_in_order_witness:
  "encode_car sample_packages [cid (last (sample_chunker [104, 105]))] (sample_chunker [104, 105]) =
     ([], [[1, 1, 85, 18, 2, 209], [2, 1, 85, 18, 2, 209, 104, 105]])"
  using encode_car_consumes_blocks_in_order
          [of sample_packages "[cid (last (sample_chunker [104, 105]))]" "sample_chunker [104, 105]"]
  by (simp add: sample_packages_def sample_chunker_def createV1_def sample_cid_bytes_def
        sample_sha256_def)

section \<open>The file name\<close>

text \<open>
  C9. Two requests with the same \<^verbatim>\<open>contentBase64\<close> and any two file names that pass the
  presence check give the same run: the same response, the same calls with the same
  identifiers, size and archive bytes, and the same world afterwards.
\<close>

theorem fileName_does_not_influence:
  assumes "truthy (js_get (js_or req1 (JObj [])) ''fileName'')"
    and "truthy (js_get (js_or req2 (JObj [])) ''fileName'')"
    and "js_get (js_or req1 (JObj [])) ''contentBase64'' = js_get (js_or req2 (JObj [])) ''contentBase64''"
  shows "upload L axios E w req1 = upload L axios E w req2"
  using assms by (simp add: upload_def upload_try_def)

theorem fileName_does_not_influence_witness:
  "upload sample_packages granting_bridge sample_env 0 (request ''a.txt'' ''aGk='')
   = upload sample_packages granting_bridge sample_env 0 (request ''b.bin'' ''aGk='')"
proof -
  have h1: "truthy (js_get (js_or (request ''a.txt'' ''aGk='') (JObj [])) ''fileName'')"
    by (simp add: request_def js_or_def)
  have h2: "truthy (js_get (js_or (request ''b.bin'' ''aGk='') (JObj [])) ''fileName'')"
    by (simp add: request_def js_or_def)
  have h3: "js_get (js_or (request ''a.txt'' ''aGk='') (JObj [])) ''contentBase64''
            = js_get (js_or (request ''b.bin'' ''aGk='') (JObj [])) ''contentBase64''"
    by (simp add: request_def js_or_def)
  from fileName_does_not_influence [OF h1 h2 h3] show ?thesis .
qed

section \<open>The presence check\<close>

text \<open>
  C10, as stated: the zero-length payload cannot be reached through the handler, since
  only the empty string encodes it. It can: the string \<^verbatim>\<open>=\<close> is not empty, so it passes the
  presence check, and \<^verbatim>\<open>Buffer.from('=', 'base64')\<close> has no byte. With the granting bridge the
  upload of this empty payload runs to the end.
\<close>

theorem empty_payload_unreachable_counterexample:
  "truthy (js_get (request ''a.txt'' ''='') ''fileName'')
   \<and> truthy (js_get (request ''a.txt'' ''='') ''contentBase64'')
   \<and> Buffer_from_base64 sample_packages (js_get (request ''a.txt'' ''='') ''contentBase64'') = Inr []
   \<and> status (response_of (upload sample_packages granting_bridge sample_env 0 (request ''a.txt'' ''=''))) = 200
   \<and> length (trace_of (upload sample_packages granting_bridge sample_env 0 (request ''a.txt'' ''=''))) = 3"
  by (simp add: sample_defs)

text \<open>
  C10, amended. A request in which \<^verbatim>\<open>fileName\<close> or \<^verbatim>\<open>contentBase64\<close> is absent or the empty
  string (or falsy in another way) is answered with status 400 and the body
  \<^verbatim>\<open>{ ok: false, error: 'fileName and contentBase64 are required' }\<close>; no call is issued and
  the world is as before, whatever the packages would do with the request.
\<close>

theorem missing_field_rejected:
  assumes "\<not> truthy (js_get (js_or req (JObj [])) ''fileName'')
           \<or> \<not> truthy (js_get (js_or req (JObj [])) ''contentBase64'')"
  shows "upload L axios E w req =
           (\<lparr>status = 400,
             body = JObj [(''ok'', JBool False),
                          (''error'', JStr ''fileName and contentBase64 are required'')]\<rparr>, [], w)"
  using assms by (auto simp: upload_def upload_try_def)

theorem missing_field_rejected_witness:
  "upload sample_packages granting_bridge sample_env 0 (request ''a.txt'' []) =
     (\<lparr>status = 400,
       body = JObj [(''ok'', JBool False),
                    (''error'', JStr ''fileName and contentBase64 are required'')]\<rparr>, [], 0)"
proof -
  have h: "\<not> truthy (js_get (js_or (request ''a.txt'' []) (JObj [])) ''fileName'')
           \<or> \<not> truthy (js_get (js_or (request ''a.txt'' []) (JObj [])) ''contentBase64'')"
    by (simp add: request_def js_or_def)
  from missing_field_rejected [OF h] show ?thesis .
qed

end
